theory Spec2Isabelle
  imports Main "HOL-Library.Word"
begin

unbundle bit_operations_syntax

section \<open>Python values\<close>

text \<open>
  The backend (\<^verbatim>\<open>src/backend/main.py\<close>) handles values decoded from JSON and builds
  dictionaries of such values. A Python \<^verbatim>\<open>int\<close> is unbounded; a \<^verbatim>\<open>float\<close> is kept as
  its IEEE-754 binary64 bit pattern; a \<^verbatim>\<open>dict\<close> with text keys is an association list
  in insertion order, looked up with \<^const>\<open>map_of\<close>.
\<close>

datatype pyval =
    PyNone
  | PyBool bool
  | PyInt int
  | PyFloat "64 word"
  | PyStr string
  | PyList "pyval list"
  | PyDict "(string \<times> pyval) list"

type_synonym dict = "(string \<times> pyval) list"

datatype py_error = IndexError | KeyError

text \<open>
  Truth value testing, as \<^verbatim>\<open>not x\<close> uses it: \<^verbatim>\<open>None\<close>, \<^verbatim>\<open>False\<close>, zero of either
  numeric type (\<^verbatim>\<open>0.0\<close> and \<^verbatim>\<open>-0.0\<close> differ only in the sign bit) and empty text or
  containers are false.
\<close>

fun truthy :: "pyval \<Rightarrow> bool" where
  "truthy PyNone = False"
| "truthy (PyBool b) = b"
| "truthy (PyInt i) = (i \<noteq> 0)"
| "truthy (PyFloat w) = (take_bit 63 w \<noteq> 0)"
| "truthy (PyStr s) = (s \<noteq> [])"
| "truthy (PyList xs) = (xs \<noteq> [])"
| "truthy (PyDict kvs) = (kvs \<noteq> [])"

text \<open>\<^verbatim>\<open>d.get(k)\<close>: the value stored under \<open>k\<close>, or \<^verbatim>\<open>None\<close> when the key is missing.\<close>

definition dict_get :: "dict \<Rightarrow> string \<Rightarrow> pyval" where
  "dict_get d k = (case map_of d k of None \<Rightarrow> PyNone | Some v \<Rightarrow> v)"

text \<open>\<^verbatim>\<open>d[k]\<close>: the value stored under \<open>k\<close>; a missing key raises \<^verbatim>\<open>KeyError\<close>.\<close>

definition subscript :: "dict \<Rightarrow> string \<Rightarrow> py_error + pyval" where
  "subscript d k = (case map_of d k of None \<Rightarrow> Inl KeyError | Some v \<Rightarrow> Inr v)"

section \<open>Standard output\<close>

text \<open>
  \<^verbatim>\<open>print\<close> writes one line to standard output. A line written from an f-string is
  kept as the f-string's parts: literal text, and replacement fields holding the value
  that \<^verbatim>\<open>str\<close> is applied to. Standard output is the list of lines written so far.
\<close>

datatype fpart = Lit string | Fmt pyval

type_synonym stdout = "fpart list list"

definition py_print :: "fpart list \<Rightarrow> stdout \<Rightarrow> stdout" where
  "py_print line out = out @ [line]"

text \<open>
  The text of a line, for the values whose \<^verbatim>\<open>str\<close> is modelled: \<^verbatim>\<open>None\<close>, booleans,
  integers (decimal, with a leading minus sign) and text. The \<^verbatim>\<open>repr\<close> of floats and of
  containers is outside the model, and a line holding one has no rendering here.
\<close>

definition digit_char :: "nat \<Rightarrow> char" where
  "digit_char d = ''0123456789'' ! d"

fun nat_digits :: "nat \<Rightarrow> string" where
  "nat_digits n = (if n < 10 then [digit_char n] else nat_digits (n div 10) @ [digit_char (n mod 10)])"

declare nat_digits.simps [simp del]




section \<open>Rating submissions\<close>

text \<open>
  \<^verbatim>\<open>rate(payload)\<close>, the handler of \<^verbatim>\<open>POST /rate\<close>. It reads two keys with
  \<^verbatim>\<open>payload.get\<close>, answers the error dictionary when \<^verbatim>\<open>not content_id or rating is None\<close>,
  and otherwise prints one line and answers \<^verbatim>\<open>{"status": "ok"}\<close>. Its only state is
  standard output, passed in and returned. No operation of the body can raise on a
  dictionary of JSON values, so the result is a plain value.
\<close>

definition rate :: "dict \<Rightarrow> stdout \<Rightarrow> dict \<times> stdout" where
  "rate payload out =
     (let content_id = dict_get payload ''content_id'';
          rating = dict_get payload ''rating''
      in if \<not> truthy content_id \<or> rating = PyNone
         then ([(''status'', PyStr ''error''), (''message'', PyStr ''Invalid payload'')], out)
         else ([(''status'', PyStr ''ok'')],
               py_print [Lit ''[RATE] content_id='', Fmt content_id,
                         Lit '' rating='', Fmt rating] out))"

section \<open>The process environment\<close>

text \<open>
  \<^verbatim>\<open>recommend\<close> reads three sources outside the program: the generator of the
  \<^verbatim>\<open>random\<close> module, the operating system's entropy (\<^verbatim>\<open>os.urandom\<close>, which
  \<^verbatim>\<open>uuid.uuid4\<close> reads) and the clock. Each is a sequence fixed in advance together
  with the position of the next read; a read returns the element there and moves the
  position on. The theorems hold for every such sequence.

  \<^item> \<open>rand_src\<close>: the raw draws of the generator. \<^verbatim>\<open>_randbelow(n)\<close> returns an
    index in \<^verbatim>\<open>range(n)\<close>: the next draw reduced modulo \<open>n\<close>.
  \<^item> \<open>urandom_src\<close>: the successive results of \<^verbatim>\<open>os.urandom(16)\<close>, each read as
    the big-endian 128-bit integer that \<^verbatim>\<open>UUID(bytes=...)\<close> makes of it.
  \<^item> \<open>clock_src\<close>: the successive readings of \<^verbatim>\<open>datetime.utcnow()\<close>, the fields of
    the current UTC date and time.
\<close>

record datetime =
  year :: nat
  month :: nat
  day :: nat
  hour :: nat
  minute :: nat
  second :: nat
  microsecond :: nat

record world =
  rand_src :: "nat \<Rightarrow> nat"
  rand_pos :: nat
  urandom_src :: "nat \<Rightarrow> 128 word"
  urandom_pos :: nat
  clock_src :: "nat \<Rightarrow> datetime"
  clock_pos :: nat

definition randbelow :: "nat \<Rightarrow> world \<Rightarrow> nat \<times> world" where
  "randbelow n w = (rand_src w (rand_pos w) mod n, w\<lparr>rand_pos := Suc (rand_pos w)\<rparr>)"

text \<open>
  \<^verbatim>\<open>random.choice(seq)\<close>: \<^verbatim>\<open>IndexError\<close> on an empty sequence, else
  \<^verbatim>\<open>seq[self._randbelow(len(seq))]\<close>. An exception leaves the process running, so the
  environment is returned beside it.
\<close>

definition choice :: "'a list \<Rightarrow> world \<Rightarrow> (py_error + 'a) \<times> world" where
  "choice seq w =
     (if length seq = 0 then (Inl IndexError, w)
      else (case randbelow (length seq) w of (i, w') \<Rightarrow> (Inr (seq ! i), w')))"

subsection \<open>Version-4 UUIDs\<close>

text \<open>
  \<^verbatim>\<open>uuid.uuid4()\<close> is \<^verbatim>\<open>UUID(bytes=os.urandom(16), version=4)\<close>; the constructor
  overwrites the variant and version bits:
  \<^verbatim>\<open>int &= ~(0xc000 << 48); int |= 0x8000 << 48; int &= ~(0xf000 << 64); int |= version << 76\<close>.
\<close>

definition uuid4_int :: "128 word \<Rightarrow> 128 word" where
  "uuid4_int i0 =
     (let i1 = i0 AND NOT (push_bit 48 0xc000);
          i2 = i1 OR push_bit 48 0x8000;
          i3 = i2 AND NOT (push_bit 64 0xf000);
          i4 = i3 OR push_bit 76 4
      in i4)"

definition uuid4 :: "world \<Rightarrow> 128 word \<times> world" where
  "uuid4 w = (uuid4_int (urandom_src w (urandom_pos w)), w\<lparr>urandom_pos := Suc (urandom_pos w)\<rparr>)"

text \<open>
  \<^verbatim>\<open>str(uuid)\<close>: \<^verbatim>\<open>hex = '%032x' % self.int\<close>, the 32 hexadecimal digits from the most
  significant, cut as \<^verbatim>\<open>hex[:8]-hex[8:12]-hex[12:16]-hex[16:20]-hex[20:]\<close>.
\<close>

definition hex_char :: "nat \<Rightarrow> char" where
  "hex_char d = ''0123456789abcdef'' ! d"

definition nibble :: "128 word \<Rightarrow> nat \<Rightarrow> nat" where
  "nibble u k = unat (take_bit 4 (drop_bit (4 * (31 - k)) u))"

definition hex32 :: "128 word \<Rightarrow> string" where
  "hex32 u = map (\<lambda>k. hex_char (nibble u k)) [0..<32]"

definition uuid_str :: "128 word \<Rightarrow> string" where
  "uuid_str u =
     (let h = hex32 u
      in take 8 h @ ''-'' @ take 4 (drop 8 h) @ ''-'' @ take 4 (drop 12 h) @ ''-'' @
         take 4 (drop 16 h) @ ''-'' @ drop 20 h)"

subsection \<open>The clock\<close>

definition utcnow :: "world \<Rightarrow> datetime \<times> world" where
  "utcnow w = (clock_src w (clock_pos w), w\<lparr>clock_pos := Suc (clock_pos w)\<rparr>)"

text \<open>
  \<^verbatim>\<open>datetime.isoformat()\<close> of a naive datetime: \<^verbatim>\<open>%04d-%02d-%02dT%02d:%02d:%02d\<close>,
  followed by \<^verbatim>\<open>.%06d\<close> of the microseconds when they are not zero. No zone designator
  is written.
\<close>

definition zero_pad :: "nat \<Rightarrow> nat \<Rightarrow> string" where
  "zero_pad width n = replicate (width - length (nat_digits n)) CHR ''0'' @ nat_digits n"

definition isoformat :: "datetime \<Rightarrow> string" where
  "isoformat d =
     zero_pad 4 (year d) @ ''-'' @ zero_pad 2 (month d) @ ''-'' @ zero_pad 2 (day d) @ ''T'' @
     zero_pad 2 (hour d) @ '':'' @ zero_pad 2 (minute d) @ '':'' @ zero_pad 2 (second d) @
     (if microsecond d \<noteq> 0 then ''.'' @ zero_pad 6 (microsecond d) else [])"

section \<open>Recommendations\<close>

definition REGIONS :: "string list" where
  "REGIONS = [''edge-us-1'', ''edge-eu-1'', ''edge-apac-1'']"

definition VIDEOS :: "dict list" where
  "VIDEOS =
     [[(''title'', PyStr ''How TikTok Recommends Videos''),
       (''body'', PyStr ''A deep dive into real-time recommendation engines.'')],
      [(''title'', PyStr ''Distributed Systems 101''),
       (''body'', PyStr ''What every engineer should know about distributed computing.'')],
      [(''title'', PyStr ''Murdoch vs Redstone''),
       (''body'', PyStr ''The history of media empires and power.'')],
      [(''title'', PyStr ''Building a CDN Simulator''),
       (''body'', PyStr ''Simulating multi-edge routing and latency.'')],
      [(''title'', PyStr ''Ellison's AI Cluster''),
       (''body'', PyStr ''Inside Oracle's 1.2 billion-watt GPU brain.'')]]"

text \<open>
  \<^verbatim>\<open>recommend(server_hint)\<close>, the handler of \<^verbatim>\<open>GET /recommend\<close>. The parameter is
  \<^verbatim>\<open>str | None\<close>. The steps follow the source: resolve the server
  (\<^verbatim>\<open>server_hint is None\<close> decides), choose a video, then evaluate the dictionary
  display from left to right.
\<close>

definition recommend :: "string option \<Rightarrow> world \<Rightarrow> (py_error + dict) \<times> world" where
  "recommend server_hint w =
     (case (case server_hint of None \<Rightarrow> choice REGIONS w | Some h \<Rightarrow> (Inr h, w)) of
        (Inl e, w1) \<Rightarrow> (Inl e, w1)
      | (Inr server, w1) \<Rightarrow>
     (case choice VIDEOS w1 of
        (Inl e, w2) \<Rightarrow> (Inl e, w2)
      | (Inr video, w2) \<Rightarrow>
     (case uuid4 w2 of (u, w3) \<Rightarrow>
     (case subscript video ''title'' of
        Inl e \<Rightarrow> (Inl e, w3)
      | Inr title \<Rightarrow>
     (case subscript video ''body'' of
        Inl e \<Rightarrow> (Inl e, w3)
      | Inr body \<Rightarrow>
     (case utcnow w3 of (now, w4) \<Rightarrow>
       (Inr [(''content_id'', PyStr (uuid_str u)),
             (''title'', title),
             (''body'', body),
             (''server_id'', PyStr server),
             (''server_region'', PyStr server),
             (''timestamp'', PyStr (isoformat now))], w4)))))))"

text \<open>
  Successive requests served by one process: each call starts from the environment the
  previous one left.
\<close>

fun recommend_calls :: "string option list \<Rightarrow> world \<Rightarrow> (py_error + dict) list \<times> world" where
  "recommend_calls [] w = ([], w)"
| "recommend_calls (h # hs) w =
     (case recommend h w of (r, w') \<Rightarrow>
      (case recommend_calls hs w' of (rs, w'') \<Rightarrow> (r # rs, w'')))"

section \<open>Vocabulary of the properties\<close>

text \<open>
  The content ids answered by a run of calls: \<^verbatim>\<open>response["content_id"]\<close> of each answer,
  in call order.
\<close>

definition content_ids :: "(py_error + dict) list \<Rightarrow> (py_error + pyval) list" where
  "content_ids rs = map (\<lambda>r. case r of Inl e \<Rightarrow> Inl e | Inr d \<Rightarrow> subscript d ''content_id'') rs"

text \<open>
  The bits of the 128-bit value read from the entropy source that the \<^verbatim>\<open>UUID\<close>
  constructor leaves as they are: all but the two variant bits (62, 63) and the four
  version bits (76 to 79), that is 122 bits.
\<close>

definition uuid4_random_bits :: "128 word" where
  "uuid4_random_bits = NOT (push_bit 48 0xc000 OR push_bit 64 0xf000)"

text \<open>
  The ranges of the fields of a Python \<^verbatim>\<open>datetime\<close>, as its constructor enforces them
  (\<^verbatim>\<open>MINYEAR = 1\<close>, \<^verbatim>\<open>MAXYEAR = 9999\<close>). Every reading of the clock is within them.
\<close>

definition datetime_ok :: "datetime \<Rightarrow> bool" where
  "datetime_ok d =
     (1 \<le> year d \<and> year d \<le> 9999 \<and> 1 \<le> month d \<and> month d \<le> 12 \<and> 1 \<le> day d \<and> day d \<le> 31
      \<and> hour d < 24 \<and> minute d < 60 \<and> second d < 60 \<and> microsecond d < 1000000)"

text \<open>
  A reader of the ISO-8601 extended format for a date and time without zone designator,
  \<^verbatim>\<open>YYYY-MM-DDTHH:MM:SS\<close> with an optional fraction of six digits. It states what it means
  for the timestamp to be parseable: the text is accepted and the fields come back.
\<close>

definition digit_val :: "char \<Rightarrow> nat option" where
  "digit_val c = map_of (zip ''0123456789'' [0..<10]) c"

fun parse_digits :: "nat \<Rightarrow> string \<Rightarrow> nat option" where
  "parse_digits acc [] = Some acc"
| "parse_digits acc (c # cs) =
     (case digit_val c of None \<Rightarrow> None | Some d \<Rightarrow> parse_digits (10 * acc + d) cs)"

definition parse_iso8601 :: "string \<Rightarrow> datetime option" where
  "parse_iso8601 s =
     (if (length s = 19 \<or> (length s = 26 \<and> s ! 19 = CHR ''.''))
         \<and> s ! 4 = CHR ''-'' \<and> s ! 7 = CHR ''-'' \<and> s ! 10 = CHR ''T''
         \<and> s ! 13 = CHR '':'' \<and> s ! 16 = CHR '':''
      then
        (case (parse_digits 0 (take 4 s), parse_digits 0 (take 2 (drop 5 s)),
               parse_digits 0 (take 2 (drop 8 s)), parse_digits 0 (take 2 (drop 11 s)),
               parse_digits 0 (take 2 (drop 14 s)), parse_digits 0 (take 2 (drop 17 s)),
               parse_digits 0 (drop 20 s)) of
           (Some y, Some mo, Some d, Some h, Some mi, Some sec, Some us) \<Rightarrow>
             Some \<lparr>year = y, month = mo, day = d, hour = h, minute = mi, second = sec,
                   microsecond = us\<rparr>
         | _ \<Rightarrow> None)
      else None)"

text \<open>
  Two concrete environments on which the properties are evaluated. In the second the
  entropy source returns the same sixteen bytes at every read.
\<close>

definition demo_world :: world where
  "demo_world =
     \<lparr>rand_src = (\<lambda>n. 7 * n + 4), rand_pos = 0,
      urandom_src = (\<lambda>n. 0x0123456789abcdef0123456789abcdef + word_of_nat n), urandom_pos = 0,
      clock_src = (\<lambda>n. \<lparr>year = 2024, month = 3, day = 9, hour = 7, minute = 5, second = 2 + n,
                          microsecond = 1500 * n\<rparr>),
      clock_pos = 0\<rparr>"

definition repeat_world :: world where
  "repeat_world = demo_world\<lparr>urandom_src := (\<lambda>n. 0x0123456789abcdef0123456789abcdef)\<rparr>"

section \<open>Properties of rating submissions\<close>

text \<open>
  C2. A payload whose \<^verbatim>\<open>content_id\<close> is absent (\<^verbatim>\<open>payload.get\<close> gives \<^verbatim>\<open>None\<close>, for a
  missing key and for a JSON null) or empty text, or whose \<^verbatim>\<open>rating\<close> is absent, is
  answered with the failure dictionary: status \<^verbatim>\<open>error\<close> and the reason
  \<^verbatim>\<open>Invalid payload\<close>. The call returns this value; nothing is raised.
\<close>

theorem rate_invalid_payload:
  assumes "dict_get payload ''content_id'' = PyNone
         \<or> dict_get payload ''content_id'' = PyStr []
         \<or> dict_get payload ''rating'' = PyNone"
  shows "fst (rate payload out) =
           [(''status'', PyStr ''error''), (''message'', PyStr ''Invalid payload'')]"
  using assms by (auto simp: rate_def Let_def)

theorem rate_invalid_payload_witness:
  "dict_get [(''rating'', PyInt 4)] ''content_id'' = PyNone
   \<and> fst (rate [(''rating'', PyInt 4)] []) =
         [(''status'', PyStr ''error''), (''message'', PyStr ''Invalid payload'')]
   \<and> dict_get [(''content_id'', PyStr ''''), (''rating'', PyInt 4)] ''content_id'' = PyStr []
   \<and> fst (rate [(''content_id'', PyStr ''''), (''rating'', PyInt 4)] []) =
         [(''status'', PyStr ''error''), (''message'', PyStr ''Invalid payload'')]
   \<and> dict_get [(''content_id'', PyStr ''abc-123''), (''rating'', PyNone)] ''rating'' = PyNone
   \<and> fst (rate [(''content_id'', PyStr ''abc-123''), (''rating'', PyNone)] []) =
         [(''status'', PyStr ''error''), (''message'', PyStr ''Invalid payload'')]"
proof -
  have a: "dict_get [(''rating'', PyInt 4)] ''content_id'' = PyNone"
    by (simp add: dict_get_def)
  have b: "dict_get [(''content_id'', PyStr ''''), (''rating'', PyInt 4)] ''content_id'' = PyStr []"
    by (simp add: dict_get_def)
  have c: "dict_get [(''content_id'', PyStr ''abc-123''), (''rating'', PyNone)] ''rating'' = PyNone"
    by (simp add: dict_get_def)
  from a b c show ?thesis
    using rate_invalid_payload [of "[(''rating'', PyInt 4)]" "[]"]
          rate_invalid_payload [of "[(''content_id'', PyStr ''''), (''rating'', PyInt 4)]" "[]"]
          rate_invalid_payload [of "[(''content_id'', PyStr ''abc-123''), (''rating'', PyNone)]" "[]"]
    by blast
qed



text \<open>
  C10. A call that answers the failure dictionary leaves standard output as it was; a
  line is written if and only if the answer is \<^verbatim>\<open>{"status": "ok"}\<close>, and every call
  gives one of the two answers.
\<close>

theorem rate_log_iff_success:
  "(fst (rate payload out) = [(''status'', PyStr ''error''), (''message'', PyStr ''Invalid payload'')]
      \<longrightarrow> snd (rate payload out) = out)
   \<and> ((snd (rate payload out) \<noteq> out) = (fst (rate payload out) = [(''status'', PyStr ''ok'')]))
   \<and> (fst (rate payload out) = [(''status'', PyStr ''ok'')]
      \<or> fst (rate payload out) =
          [(''status'', PyStr ''error''), (''message'', PyStr ''Invalid payload'')])"
  by (simp add: rate_def Let_def py_print_def)

theorem rate_log_iff_success_witness:
  "fst (rate [(''content_id'', PyStr ''''), (''rating'', PyInt 4)] [[Lit ''earlier line'']]) =
     [(''status'', PyStr ''error''), (''message'', PyStr ''Invalid payload'')]
   \<and> snd (rate [(''content_id'', PyStr ''''), (''rating'', PyInt 4)] [[Lit ''earlier line'']]) =
       [[Lit ''earlier line'']]"
proof -
  have "fst (rate [(''content_id'', PyStr ''''), (''rating'', PyInt 4)] [[Lit ''earlier line'']]) =
     [(''status'', PyStr ''error''), (''message'', PyStr ''Invalid payload'')]"
    by (simp add: rate_def dict_get_def)
  then show ?thesis
    using rate_log_iff_success [of "[(''content_id'', PyStr ''''), (''rating'', PyInt 4)]"
        "[[Lit ''earlier line'']]"]
    by blast
qed

section \<open>Properties of recommendations\<close>

subsection \<open>The answer of a call\<close>

lemma length_REGIONS: "length REGIONS = 3"
  by (simp add: REGIONS_def)

lemma length_VIDEOS: "length VIDEOS = 5"
  by (simp add: VIDEOS_def)

lemma VIDEOS_nth:
  assumes "i < 5"
  shows "\<exists>t b. VIDEOS ! i = [(''title'', PyStr t), (''body'', PyStr b)]"
proof -
  from assms have "i = 0 \<or> i = 1 \<or> i = 2 \<or> i = 3 \<or> i = 4" by arith
  then show ?thesis by (auto simp: VIDEOS_def)
qed

text \<open>
  Every call succeeds, and its answer and the environment it leaves are given in closed
  form: the video is an element of the catalog, both server fields hold the resolved
  server, and each of the three sources moves on by what was read.
\<close>

lemma recommend_result:
  "\<exists>v t b. v \<in> set VIDEOS \<and> v = [(''title'', PyStr t), (''body'', PyStr b)]
     \<and> recommend hint w =
       (Inr [(''content_id'', PyStr (uuid_str (uuid4_int (urandom_src w (urandom_pos w))))),
             (''title'', PyStr t),
             (''body'', PyStr b),
             (''server_id'',
               PyStr (case hint of None \<Rightarrow> REGIONS ! (rand_src w (rand_pos w) mod length REGIONS)
                      | Some h \<Rightarrow> h)),
             (''server_region'',
               PyStr (case hint of None \<Rightarrow> REGIONS ! (rand_src w (rand_pos w) mod length REGIONS)
                      | Some h \<Rightarrow> h)),
             (''timestamp'', PyStr (isoformat (clock_src w (clock_pos w))))],
        w\<lparr>rand_pos := (case hint of None \<Rightarrow> Suc (Suc (rand_pos w)) | Some h \<Rightarrow> Suc (rand_pos w)),
          urandom_pos := Suc (urandom_pos w),
          clock_pos := Suc (clock_pos w)\<rparr>)"
proof -
  define i where
    "i = (case hint of None \<Rightarrow> rand_src w (Suc (rand_pos w)) | Some h \<Rightarrow> rand_src w (rand_pos w)) mod 5"
  have i: "i < 5" by (simp add: i_def)
  from VIDEOS_nth [OF i] obtain t b
    where v: "VIDEOS ! i = [(''title'', PyStr t), (''body'', PyStr b)]"
    by blast
  from i have mem: "VIDEOS ! i \<in> set VIDEOS"
    by (simp add: length_VIDEOS)
  have "recommend hint w =
       (Inr [(''content_id'', PyStr (uuid_str (uuid4_int (urandom_src w (urandom_pos w))))),
             (''title'', PyStr t),
             (''body'', PyStr b),
             (''server_id'',
               PyStr (case hint of None \<Rightarrow> REGIONS ! (rand_src w (rand_pos w) mod length REGIONS)
                      | Some h \<Rightarrow> h)),
             (''server_region'',
               PyStr (case hint of None \<Rightarrow> REGIONS ! (rand_src w (rand_pos w) mod length REGIONS)
                      | Some h \<Rightarrow> h)),
             (''timestamp'', PyStr (isoformat (clock_src w (clock_pos w))))],
        w\<lparr>rand_pos := (case hint of None \<Rightarrow> Suc (Suc (rand_pos w)) | Some h \<Rightarrow> Suc (rand_pos w)),
          urandom_pos := Suc (urandom_pos w),
          clock_pos := Suc (clock_pos w)\<rparr>)"
  proof (cases hint)
    case None
    with v show ?thesis
      by (simp add: recommend_def choice_def randbelow_def uuid4_def utcnow_def subscript_def
          i_def length_REGIONS length_VIDEOS)
  next
    case (Some h)
    with v show ?thesis
      by (simp add: recommend_def choice_def randbelow_def uuid4_def utcnow_def subscript_def
          i_def length_REGIONS length_VIDEOS)
  qed
  with v mem show ?thesis by metis
qed

text \<open>
  C1. A present, non-empty hint \<open>h\<close>, whether or not it names a known edge, is answered
  with \<^verbatim>\<open>server_id\<close> and \<^verbatim>\<open>server_region\<close> both equal to \<open>h\<close>: the hint is not checked
  against \<^const>\<open>REGIONS\<close>.
\<close>

theorem recommend_hint_verbatim:
  assumes "h \<noteq> []"
  shows "\<exists>r. fst (recommend (Some h) w) = Inr r
           \<and> subscript r ''server_id'' = Inr (PyStr h)
           \<and> subscript r ''server_region'' = Inr (PyStr h)"
proof -
  from recommend_result [of "Some h" w] obtain r
    where "fst (recommend (Some h) w) = Inr r"
      and "map_of r ''server_id'' = Some (PyStr h)"
      and "map_of r ''server_region'' = Some (PyStr h)"
    by auto
  then show ?thesis by (auto simp: subscript_def)
qed

theorem recommend_hint_verbatim_witness:
  "''edge-mars-1'' \<noteq> [] \<and> ''edge-mars-1'' \<notin> set REGIONS
   \<and> (\<exists>r. fst (recommend (Some ''edge-mars-1'') demo_world) = Inr r
           \<and> subscript r ''server_id'' = Inr (PyStr ''edge-mars-1'')
           \<and> subscript r ''server_region'' = Inr (PyStr ''edge-mars-1''))"
  using recommend_hint_verbatim [of "''edge-mars-1''" demo_world]
  by (simp add: REGIONS_def)

text \<open>
  C3. Every call answers a dictionary of exactly the six keys \<^verbatim>\<open>content_id\<close>,
  \<^verbatim>\<open>title\<close>, \<^verbatim>\<open>body\<close>, \<^verbatim>\<open>server_id\<close>, \<^verbatim>\<open>server_region\<close>, \<^verbatim>\<open>timestamp\<close>, each
  holding text, and \<^verbatim>\<open>server_region\<close> holds the same text as \<^verbatim>\<open>server_id\<close>.
\<close>

theorem recommend_six_text_fields:
  "\<exists>cid t b s ts. fst (recommend hint w) =
      Inr [(''content_id'', PyStr cid), (''title'', PyStr t), (''body'', PyStr b),
           (''server_id'', PyStr s), (''server_region'', PyStr s), (''timestamp'', PyStr ts)]"
proof -
  from recommend_result [of hint w] show ?thesis
    by (metis fst_conv)
qed

theorem recommend_six_text_fields_witness:
  "\<exists>cid t b s ts. fst (recommend (Some ''edge-eu-1'') demo_world) =
      Inr [(''content_id'', PyStr cid), (''title'', PyStr t), (''body'', PyStr b),
           (''server_id'', PyStr s), (''server_region'', PyStr s), (''timestamp'', PyStr ts)]"
  using recommend_six_text_fields [of "Some ''edge-eu-1''" demo_world] .



text \<open>
  C8. The title and the body of every answer are those of one and the same entry of the
  catalog \<^const>\<open>VIDEOS\<close>.
\<close>

theorem recommend_title_body_from_catalog:
  "\<exists>r v t b. fst (recommend hint w) = Inr r \<and> v \<in> set VIDEOS
      \<and> subscript v ''title'' = Inr t \<and> subscript v ''body'' = Inr b
      \<and> subscript r ''title'' = Inr t \<and> subscript r ''body'' = Inr b"
proof -
  from recommend_result [of hint w] obtain v t b r
    where "v \<in> set VIDEOS" and "v = [(''title'', PyStr t), (''body'', PyStr b)]"
      and "fst (recommend hint w) = Inr r"
      and "map_of r ''title'' = Some (PyStr t)" and "map_of r ''body'' = Some (PyStr b)"
    by auto
  then show ?thesis
    by (intro exI [of _ r] exI [of _ v] exI [of _ "PyStr t"] exI [of _ "PyStr b"])
      (simp add: subscript_def)
qed

theorem recommend_title_body_from_catalog_witness:
  "\<exists>r v t b. fst (recommend (Some ''edge-eu-1'') demo_world) = Inr r \<and> v \<in> set VIDEOS
      \<and> subscript v ''title'' = Inr t \<and> subscript v ''body'' = Inr b
      \<and> subscript r ''title'' = Inr t \<and> subscript r ''body'' = Inr b"
  using recommend_title_body_from_catalog [of "Some ''edge-eu-1''" demo_world] .

text \<open>
  C9. The empty hint is present (\<^verbatim>\<open>"" is None\<close> is false), so it is used as it is:
  both server fields hold the empty text. The generator is read once, for the video;
  without a hint it is read twice, for the edge and for the video.
\<close>

theorem recommend_empty_hint:
  "(\<exists>r. fst (recommend (Some []) w) = Inr r
        \<and> subscript r ''server_id'' = Inr (PyStr [])
        \<and> subscript r ''server_region'' = Inr (PyStr []))
   \<and> rand_pos (snd (recommend (Some []) w)) = Suc (rand_pos w)
   \<and> rand_pos (snd (recommend None w)) = Suc (Suc (rand_pos w))"
proof -
  from recommend_result [of "Some []" w] obtain r
    where "recommend (Some []) w =
        (Inr r, w\<lparr>rand_pos := Suc (rand_pos w), urandom_pos := Suc (urandom_pos w),
                  clock_pos := Suc (clock_pos w)\<rparr>)"
      and "map_of r ''server_id'' = Some (PyStr [])"
      and "map_of r ''server_region'' = Some (PyStr [])"
    by auto
  moreover from recommend_result [of None w]
  have "rand_pos (snd (recommend None w)) = Suc (Suc (rand_pos w))"
    by auto
  ultimately show ?thesis by (auto simp: subscript_def)
qed

theorem recommend_empty_hint_witness:
  "(\<exists>r. fst (recommend (Some []) demo_world) = Inr r
        \<and> subscript r ''server_id'' = Inr (PyStr [])
        \<and> subscript r ''server_region'' = Inr (PyStr []))
   \<and> rand_pos (snd (recommend (Some []) demo_world)) = 1
   \<and> rand_pos (snd (recommend None demo_world)) = 2"
  using recommend_empty_hint [of demo_world] by (simp add: demo_world_def)

subsection \<open>The timestamp\<close>

lemma map_of_zip_nth:
  assumes "distinct xs" and "length xs = length ys" and "i < length xs"
  shows "map_of (zip xs ys) (xs ! i) = Some (ys ! i)"
proof -
  from assms have "distinct (map fst (zip xs ys))" and "(xs ! i, ys ! i) \<in> set (zip xs ys)"
    by (auto simp: set_zip)
  then show ?thesis by (rule map_of_is_SomeI)
qed

lemma digit_val_digit_char:
  assumes "d < 10"
  shows "digit_val (digit_char d) = Some d"
proof -
  have "map_of (zip ''0123456789'' [0..<10]) (''0123456789'' ! d) = Some ([0..<10] ! d)"
    using assms by (intro map_of_zip_nth) simp_all
  with assms show ?thesis
    by (simp only: digit_val_def digit_char_def nth_upt add_0)
qed

lemma digit_val_zero: "digit_val CHR ''0'' = Some 0"
  using digit_val_digit_char [of 0] by (simp add: digit_char_def)

lemma parse_digits_append:
  "parse_digits acc (xs @ ys) =
     (case parse_digits acc xs of None \<Rightarrow> None | Some a \<Rightarrow> parse_digits a ys)"
  by (induction xs arbitrary: acc) (auto split: option.splits)

lemma parse_nat_digits:
  "parse_digits acc (nat_digits n) = Some (acc * 10 ^ length (nat_digits n) + n)"
proof (induction n arbitrary: acc rule: nat_digits.induct)
  case (1 n)
  show ?case
  proof (cases "n < 10")
    case True
    then show ?thesis
      by (simp add: nat_digits.simps [of n] digit_val_digit_char)
  next
    case False
    have "parse_digits acc (nat_digits n) =
            parse_digits acc (nat_digits (n div 10) @ [digit_char (n mod 10)])"
      using False by (simp add: nat_digits.simps [of n])
    also have "\<dots> = Some (10 * (acc * 10 ^ length (nat_digits (n div 10)) + n div 10) + n mod 10)"
      using False by (simp add: parse_digits_append "1.IH" digit_val_digit_char)
    also have "\<dots> = Some (acc * 10 ^ length (nat_digits n) + n)"
      using False by (simp add: nat_digits.simps [of n] algebra_simps)
    finally show ?thesis .
  qed
qed

lemma parse_zeros: "parse_digits 0 (replicate k CHR ''0'' @ xs) = parse_digits 0 xs"
  by (induction k) (simp_all add: digit_val_zero)

lemma parse_zero_pad: "parse_digits 0 (zero_pad width n) = Some n"
  by (simp add: zero_pad_def parse_zeros parse_nat_digits)

lemma length_nat_digits:
  assumes "n < 10 ^ width" and "0 < width"
  shows "length (nat_digits n) \<le> width"
  using assms
proof (induction n arbitrary: width rule: nat_digits.induct)
  case (1 n)
  show ?case
  proof (cases "n < 10")
    case True
    with "1.prems" show ?thesis by (simp add: nat_digits.simps [of n])
  next
    case False
    from "1.prems" obtain v where v: "width = Suc v" by (cases width) auto
    with False "1.prems" have "0 < v" by (cases v) auto
    moreover from "1.prems" v have "n div 10 < 10 ^ v"
      by (simp add: less_mult_imp_div_less mult.commute)
    ultimately have "length (nat_digits (n div 10)) \<le> v"
      using False by (intro "1.IH") simp_all
    with False v show ?thesis by (simp add: nat_digits.simps [of n])
  qed
qed

lemma length_zero_pad:
  assumes "n < 10 ^ width" and "0 < width"
  shows "length (zero_pad width n) = width"
  using length_nat_digits [OF assms] by (simp add: zero_pad_def)

lemma list4: "length xs = 4 \<Longrightarrow> \<exists>a b c d. xs = [a, b, c, d]"
  by (auto simp: length_Suc_conv eval_nat_numeral)

lemma list2: "length xs = 2 \<Longrightarrow> \<exists>a b. xs = [a, b]"
  by (auto simp: length_Suc_conv eval_nat_numeral)

lemma parse_layout:
  assumes "length Y = 4" and "length M = 2" and "length D = 2"
      and "length H = 2" and "length Mi = 2" and "length S = 2"
      and "F = [] \<or> (\<exists>U. F = CHR ''.'' # U \<and> length U = 6)"
      and "parse_digits 0 Y = Some y" and "parse_digits 0 M = Some mo"
      and "parse_digits 0 D = Some d" and "parse_digits 0 H = Some h"
      and "parse_digits 0 Mi = Some mi" and "parse_digits 0 S = Some sec"
      and "parse_digits 0 (drop 1 F) = Some us"
  shows "parse_iso8601 (Y @ ''-'' @ M @ ''-'' @ D @ ''T'' @ H @ '':'' @ Mi @ '':'' @ S @ F) =
           Some \<lparr>year = y, month = mo, day = d, hour = h, minute = mi, second = sec,
                 microsecond = us\<rparr>"
proof -
  from assms(1) obtain y1 y2 y3 y4 where Y: "Y = [y1, y2, y3, y4]" using list4 by blast
  from assms(2) obtain m1 m2 where M: "M = [m1, m2]" using list2 by blast
  from assms(3) obtain d1 d2 where D: "D = [d1, d2]" using list2 by blast
  from assms(4) obtain h1 h2 where H: "H = [h1, h2]" using list2 by blast
  from assms(5) obtain n1 n2 where Mi: "Mi = [n1, n2]" using list2 by blast
  from assms(6) obtain s1 s2 where S: "S = [s1, s2]" using list2 by blast
  from assms(7) show ?thesis
  proof
    assume F: "F = []"
    with assms(8-14) show ?thesis
      unfolding Y M D H Mi S parse_iso8601_def by simp
  next
    assume "\<exists>U. F = CHR ''.'' # U \<and> length U = 6"
    then obtain U where F: "F = CHR ''.'' # U" and U: "length U = 6" by blast
    with assms(8-14) show ?thesis
      unfolding Y M D H Mi S parse_iso8601_def by simp
  qed
qed

text \<open>Reading back what \<^const>\<open>isoformat\<close> wrote gives the datetime it was written from.\<close>

lemma parse_isoformat:
  assumes "datetime_ok d"
  shows "parse_iso8601 (isoformat d) = Some d"
proof -
  from assms have
    b: "year d < 10 ^ 4" "month d < 10 ^ 2" "day d < 10 ^ 2" "hour d < 10 ^ 2"
       "minute d < 10 ^ 2" "second d < 10 ^ 2" "microsecond d < 10 ^ 6"
    by (simp_all add: datetime_ok_def)
  have l: "length (zero_pad 4 (year d)) = 4" "length (zero_pad 2 (month d)) = 2"
      "length (zero_pad 2 (day d)) = 2" "length (zero_pad 2 (hour d)) = 2"
      "length (zero_pad 2 (minute d)) = 2" "length (zero_pad 2 (second d)) = 2"
    by (simp_all only: length_zero_pad [OF b(1)] length_zero_pad [OF b(2)]
        length_zero_pad [OF b(3)] length_zero_pad [OF b(4)] length_zero_pad [OF b(5)]
        length_zero_pad [OF b(6)] zero_less_numeral)
  let ?F = "if microsecond d \<noteq> 0 then ''.'' @ zero_pad 6 (microsecond d) else []"
  have F: "?F = [] \<or> (\<exists>U. ?F = CHR ''.'' # U \<and> length U = 6)"
    using length_zero_pad [OF b(7)] by simp
  have us: "parse_digits 0 (drop 1 ?F) = Some (microsecond d)"
    by (simp add: parse_zero_pad)
  have "parse_iso8601 (isoformat d) =
          Some \<lparr>year = year d, month = month d, day = day d, hour = hour d, minute = minute d,
                second = second d, microsecond = microsecond d\<rparr>"
    unfolding isoformat_def
    by (rule parse_layout [OF l F _ _ _ _ _ _ us]) (simp_all only: parse_zero_pad)
  then show ?thesis by simp
qed

lemma digit_char_in:
  assumes "d < 10"
  shows "digit_char d \<in> set ''0123456789''"
  unfolding digit_char_def using assms by (intro nth_mem) simp

lemma set_nat_digits: "set (nat_digits n) \<subseteq> set ''0123456789''"
proof (induction n rule: nat_digits.induct)
  case (1 n)
  show ?case
  proof (cases "n < 10")
    case True
    then show ?thesis
      using digit_char_in [of n] by (simp add: nat_digits.simps [of n])
  next
    case False
    with "1.IH" show ?thesis
      using digit_char_in [of "n mod 10"] by (simp add: nat_digits.simps [of n])
  qed
qed

lemma set_zero_pad: "set (zero_pad width n) \<subseteq> set ''0123456789''"
  using set_nat_digits [of n] by (auto simp: zero_pad_def)

text \<open>
  The text consists of digits and the four separators only; in particular it holds
  neither \<^verbatim>\<open>Z\<close> nor \<^verbatim>\<open>+\<close>. The format writes no zone designator: that the fields are
  UTC is the convention of \<^verbatim>\<open>utcnow\<close>, not something the text says.
\<close>

lemma isoformat_chars: "set (isoformat d) \<subseteq> set ''0123456789-T:.''"
proof -
  define S where "S = set ''0123456789-T:.''"
  have "set ''0123456789'' \<subseteq> S"
    by (simp add: S_def)
  then have z: "set (zero_pad k n) \<subseteq> S" for k n
    using set_zero_pad [of k n] by (rule order_trans [rotated])
  then have zm: "x \<in> S" if "x \<in> set (zero_pad k n)" for x k n
    using that by blast
  have sep: "CHR ''-'' \<in> S" "CHR ''T'' \<in> S" "CHR '':'' \<in> S" "CHR ''.'' \<in> S"
    by (simp_all add: S_def)
  have "set (isoformat d) \<subseteq> S"
    unfolding isoformat_def by (auto simp: sep dest: zm split: if_splits)
  then show ?thesis by (simp only: S_def)
qed

lemma isoformat_no_designator:
  "CHR ''Z'' \<notin> set (isoformat d) \<and> CHR ''+'' \<notin> set (isoformat d)"
  using isoformat_chars [of d] by auto

lemma isoformat_demo1:
  "isoformat \<lparr>year = 2024, month = 3, day = 9, hour = 7, minute = 5, second = 2, microsecond = 0\<rparr>
     = ''2024-03-09T07:05:02''"
  by code_simp

lemma isoformat_demo2:
  "isoformat \<lparr>year = 2024, month = 3, day = 9, hour = 7, minute = 5, second = 3, microsecond = 1500\<rparr>
     = ''2024-03-09T07:05:03.001500''"
  by code_simp

text \<open>
  C7. The timestamp of every answer is \<^verbatim>\<open>isoformat\<close> of the reading of the UTC clock
  taken during the call, and this text is ISO-8601: the reader accepts it and returns
  the fields of that reading.
\<close>

theorem recommend_timestamp:
  assumes "datetime_ok (clock_src w (clock_pos w))"
  shows "\<exists>r. fst (recommend hint w) = Inr r
           \<and> subscript r ''timestamp'' = Inr (PyStr (isoformat (clock_src w (clock_pos w))))
           \<and> parse_iso8601 (isoformat (clock_src w (clock_pos w))) = Some (clock_src w (clock_pos w))"
proof -
  from recommend_result [of hint w] obtain r
    where "fst (recommend hint w) = Inr r"
      and "map_of r ''timestamp'' = Some (PyStr (isoformat (clock_src w (clock_pos w))))"
    by auto
  with parse_isoformat [OF assms] show ?thesis
    by (auto simp: subscript_def)
qed

theorem recommend_timestamp_witness:
  "datetime_ok (clock_src demo_world (clock_pos demo_world))
   \<and> (\<exists>r. fst (recommend None demo_world) = Inr r
          \<and> subscript r ''timestamp'' = Inr (PyStr ''2024-03-09T07:05:02''))
   \<and> parse_iso8601 ''2024-03-09T07:05:02'' =
       Some \<lparr>year = 2024, month = 3, day = 9, hour = 7, minute = 5, second = 2, microsecond = 0\<rparr>
   \<and> datetime_ok (clock_src (demo_world\<lparr>clock_pos := 1\<rparr>) (clock_pos (demo_world\<lparr>clock_pos := 1\<rparr>)))
   \<and> (\<exists>r. fst (recommend None (demo_world\<lparr>clock_pos := 1\<rparr>)) = Inr r
          \<and> subscript r ''timestamp'' = Inr (PyStr ''2024-03-09T07:05:03.001500''))
   \<and> parse_iso8601 ''2024-03-09T07:05:03.001500'' =
       Some \<lparr>year = 2024, month = 3, day = 9, hour = 7, minute = 5, second = 3, microsecond = 1500\<rparr>"
proof -
  have a: "clock_src demo_world (clock_pos demo_world) =
      \<lparr>year = 2024, month = 3, day = 9, hour = 7, minute = 5, second = 2, microsecond = 0\<rparr>"
    by (simp add: demo_world_def)
  have b: "clock_src (demo_world\<lparr>clock_pos := 1\<rparr>) (clock_pos (demo_world\<lparr>clock_pos := 1\<rparr>)) =
      \<lparr>year = 2024, month = 3, day = 9, hour = 7, minute = 5, second = 3, microsecond = 1500\<rparr>"
    by (simp add: demo_world_def)
  have oka: "datetime_ok (clock_src demo_world (clock_pos demo_world))"
    by (simp only: a) (simp add: datetime_ok_def)
  have okb: "datetime_ok (clock_src (demo_world\<lparr>clock_pos := 1\<rparr>) (clock_pos (demo_world\<lparr>clock_pos := 1\<rparr>)))"
    by (simp only: b) (simp add: datetime_ok_def)
  have "(\<exists>r. fst (recommend None demo_world) = Inr r
          \<and> subscript r ''timestamp'' = Inr (PyStr ''2024-03-09T07:05:02''))
   \<and> parse_iso8601 ''2024-03-09T07:05:02'' =
       Some \<lparr>year = 2024, month = 3, day = 9, hour = 7, minute = 5, second = 2, microsecond = 0\<rparr>"
    using recommend_timestamp [OF oka, of None] by (simp only: a isoformat_demo1 isoformat_demo2) blast
  moreover have "(\<exists>r. fst (recommend None (demo_world\<lparr>clock_pos := 1\<rparr>)) = Inr r
          \<and> subscript r ''timestamp'' = Inr (PyStr ''2024-03-09T07:05:03.001500''))
   \<and> parse_iso8601 ''2024-03-09T07:05:03.001500'' =
       Some \<lparr>year = 2024, month = 3, day = 9, hour = 7, minute = 5, second = 3, microsecond = 1500\<rparr>"
    using recommend_timestamp [OF okb, of None] by (simp only: b isoformat_demo1 isoformat_demo2) blast
  ultimately show ?thesis
    using oka okb by blast
qed

subsection \<open>Content ids\<close>

lemma variant_mask: "push_bit 48 (0xc000 :: 128 word) = push_bit 62 (mask 2)"
  by (simp add: mask_eq_exp_minus_1 push_bit_eq_mult)

lemma variant_bits: "push_bit 48 (0x8000 :: 128 word) = push_bit 63 1"
  by (simp add: push_bit_eq_mult)

lemma version_mask: "push_bit 64 (0xf000 :: 128 word) = push_bit 76 (mask 4)"
  by (simp add: mask_eq_exp_minus_1 push_bit_eq_mult)

lemma version_bits: "push_bit 76 (4 :: 128 word) = push_bit 78 1"
  by (simp add: push_bit_eq_mult)

lemma bit_variant_mask: "bit (push_bit 48 (0xc000 :: 128 word)) n \<longleftrightarrow> n = 62 \<or> n = 63"
proof -
  have "bit (push_bit 62 (mask 2 :: 128 word)) n \<longleftrightarrow> n = 62 \<or> n = 63"
    unfolding bit_push_bit_iff bit_mask_iff by auto
  then show ?thesis by (simp only: variant_mask)
qed

lemma bit_variant_bits: "bit (push_bit 48 (0x8000 :: 128 word)) n \<longleftrightarrow> n = 63"
proof -
  have "bit (push_bit 63 (1 :: 128 word)) n \<longleftrightarrow> n = 63"
    unfolding bit_push_bit_iff bit_1_iff by auto
  then show ?thesis by (simp only: variant_bits)
qed

lemma bit_version_mask:
  "bit (push_bit 64 (0xf000 :: 128 word)) n \<longleftrightarrow> n = 76 \<or> n = 77 \<or> n = 78 \<or> n = 79"
proof -
  have "bit (push_bit 76 (mask 4 :: 128 word)) n \<longleftrightarrow> n = 76 \<or> n = 77 \<or> n = 78 \<or> n = 79"
    unfolding bit_push_bit_iff bit_mask_iff by auto
  then show ?thesis by (simp only: version_mask)
qed

lemma bit_version_bits: "bit (push_bit 76 (4 :: 128 word)) n \<longleftrightarrow> n = 78"
proof -
  have "bit (push_bit 78 (1 :: 128 word)) n \<longleftrightarrow> n = 78"
    unfolding bit_push_bit_iff bit_1_iff by auto
  then show ?thesis by (simp only: version_bits)
qed

lemma possible_bit_128: "(2 :: 128 word) ^ n \<noteq> 0 \<longleftrightarrow> n < 128"
  by (simp add: exp_eq_zero_iff not_le)

lemma bit_uuid4_int:
  "bit (uuid4_int a) n \<longleftrightarrow>
     n = 63 \<or> n = 78 \<or> (n \<noteq> 62 \<and> n \<noteq> 76 \<and> n \<noteq> 77 \<and> n \<noteq> 79 \<and> bit a n)"
proof -
  have len: "n < 128" if "bit a n"
    using bit_imp_le_length [OF that] by simp
  have "bit (uuid4_int a) n \<longleftrightarrow>
     (((bit a n \<and> (2 :: 128 word) ^ n \<noteq> 0 \<and> \<not> bit (push_bit 48 (0xc000 :: 128 word)) n)
          \<or> bit (push_bit 48 (0x8000 :: 128 word)) n)
        \<and> (2 :: 128 word) ^ n \<noteq> 0 \<and> \<not> bit (push_bit 64 (0xf000 :: 128 word)) n)
      \<or> bit (push_bit 76 (4 :: 128 word)) n"
    by (simp only: uuid4_int_def Let_def bit_or_iff bit_and_iff bit_not_iff_eq)
  also have "\<dots> \<longleftrightarrow> n = 63 \<or> n = 78 \<or> (n \<noteq> 62 \<and> n \<noteq> 76 \<and> n \<noteq> 77 \<and> n \<noteq> 79 \<and> bit a n)"
    unfolding bit_variant_mask bit_variant_bits bit_version_mask bit_version_bits possible_bit_128
    using len by auto
  finally show ?thesis .
qed

lemma bit_and_random_bits:
  "bit (a AND uuid4_random_bits) n \<longleftrightarrow>
     n \<noteq> 62 \<and> n \<noteq> 63 \<and> n \<noteq> 76 \<and> n \<noteq> 77 \<and> n \<noteq> 78 \<and> n \<noteq> 79 \<and> bit a n"
proof -
  have len: "n < 128" if "bit a n"
    using bit_imp_le_length [OF that] by simp
  have "bit (a AND uuid4_random_bits) n \<longleftrightarrow>
     bit a n \<and> (2 :: 128 word) ^ n \<noteq> 0
       \<and> \<not> (bit (push_bit 48 (0xc000 :: 128 word)) n \<or> bit (push_bit 64 (0xf000 :: 128 word)) n)"
    by (simp only: uuid4_random_bits_def bit_or_iff bit_and_iff bit_not_iff_eq)
  also have "\<dots> \<longleftrightarrow> n \<noteq> 62 \<and> n \<noteq> 63 \<and> n \<noteq> 76 \<and> n \<noteq> 77 \<and> n \<noteq> 78 \<and> n \<noteq> 79 \<and> bit a n"
    unfolding bit_variant_mask bit_version_mask possible_bit_128
    using len by auto
  finally show ?thesis .
qed

text \<open>Two reads give the same UUID exactly when they agree on the 122 bits kept.\<close>

lemma uuid4_int_eq_iff:
  "uuid4_int a = uuid4_int b \<longleftrightarrow> a AND uuid4_random_bits = b AND uuid4_random_bits"
proof
  assume eq: "uuid4_int a = uuid4_int b"
  show "a AND uuid4_random_bits = b AND uuid4_random_bits"
  proof (rule bit_eqI)
    fix n
    from eq have "bit (uuid4_int a) n = bit (uuid4_int b) n" by simp
    then show "bit (a AND uuid4_random_bits) n = bit (b AND uuid4_random_bits) n"
      unfolding bit_uuid4_int bit_and_random_bits by blast
  qed
next
  assume eq: "a AND uuid4_random_bits = b AND uuid4_random_bits"
  show "uuid4_int a = uuid4_int b"
  proof (rule bit_eqI)
    fix n
    from eq have "bit (a AND uuid4_random_bits) n = bit (b AND uuid4_random_bits) n" by simp
    then show "bit (uuid4_int a) n = bit (uuid4_int b) n"
      unfolding bit_uuid4_int bit_and_random_bits by blast
  qed
qed

lemma hex_char_inj:
  assumes "a < 16" and "b < 16" and "hex_char a = hex_char b"
  shows "a = b"
proof -
  have "distinct ''0123456789abcdef''" by simp
  moreover have "a < length ''0123456789abcdef''" and "b < length ''0123456789abcdef''"
    using assms by simp_all
  ultimately have "(''0123456789abcdef'' ! a = ''0123456789abcdef'' ! b) = (a = b)"
    by (rule nth_eq_iff_index_eq)
  with assms(3) show ?thesis by (simp only: hex_char_def)
qed

lemma nibble_less: "nibble u k < 16"
proof -
  have "take_bit 4 (unat (drop_bit (4 * (31 - k)) u)) < 2 ^ 4"
    by (rule take_bit_nat_less_exp)
  then show ?thesis by (simp add: nibble_def unsigned_take_bit_eq)
qed

lemma length_hex32: "length (hex32 u) = 32"
  by (simp add: hex32_def)

lemma hex32_inj:
  assumes "hex32 u = hex32 v"
  shows "u = v"
proof (rule bit_word_eqI)
  fix n :: nat
  assume "n < LENGTH(128)"
  then have n: "n < 128" by simp
  define k where "k = 31 - n div 4"
  from n have k: "k < 32" and j: "4 * (31 - k) = 4 * (n div 4)"
    by (simp_all add: k_def)
  from assms have "\<forall>i\<in>{0..<32}. hex_char (nibble u i) = hex_char (nibble v i)"
    by (simp add: hex32_def)
  with k have "hex_char (nibble u k) = hex_char (nibble v k)"
    by simp
  then have "nibble u k = nibble v k"
    by (rule hex_char_inj [OF nibble_less nibble_less])
  then have "unat (take_bit 4 (drop_bit (4 * (n div 4)) u)) =
             unat (take_bit 4 (drop_bit (4 * (n div 4)) v))"
    by (simp add: nibble_def j)
  then have eq: "take_bit 4 (drop_bit (4 * (n div 4)) u) = take_bit 4 (drop_bit (4 * (n div 4)) v)"
    by (simp only: word_unat_eq_iff)
  have "bit (take_bit 4 (drop_bit (4 * (n div 4)) x)) (n mod 4) = bit x n" for x :: "128 word"
    by (simp add: bit_take_bit_iff bit_drop_bit_eq)
  with eq show "bit u n = bit v n" by metis
qed

text \<open>Distinct UUIDs have distinct texts.\<close>

lemma uuid_str_inj:
  assumes "uuid_str u = uuid_str v"
  shows "u = v"
proof -
  define a where "a = hex32 u"
  define b where "b = hex32 v"
  have la: "length a = 32" and lb: "length b = 32"
    by (simp_all add: a_def b_def length_hex32)
  from assms have
    "take 8 a @ ''-'' @ take 4 (drop 8 a) @ ''-'' @ take 4 (drop 12 a) @ ''-'' @ take 4 (drop 16 a) @ ''-'' @ drop 20 a
   = take 8 b @ ''-'' @ take 4 (drop 8 b) @ ''-'' @ take 4 (drop 12 b) @ ''-'' @ take 4 (drop 16 b) @ ''-'' @ drop 20 b"
    by (simp add: uuid_str_def Let_def a_def b_def)
  with la lb have p: "take 8 a = take 8 b" "take 4 (drop 8 a) = take 4 (drop 8 b)"
    "take 4 (drop 12 a) = take 4 (drop 12 b)" "take 4 (drop 16 a) = take 4 (drop 16 b)"
    "drop 20 a = drop 20 b"
    by simp_all
  have split: "x = take 8 x @ take 4 (drop 8 x) @ take 4 (drop 12 x) @ take 4 (drop 16 x) @ drop 20 x"
    for x :: string
  proof -
    have "take 4 (drop 16 x) @ drop 20 x = drop 16 x"
      using append_take_drop_id [of 4 "drop 16 x"] by simp
    moreover have "take 4 (drop 12 x) @ drop 16 x = drop 12 x"
      using append_take_drop_id [of 4 "drop 12 x"] by simp
    moreover have "take 4 (drop 8 x) @ drop 12 x = drop 8 x"
      using append_take_drop_id [of 4 "drop 8 x"] by simp
    ultimately show ?thesis by simp
  qed
  have "a = b"
    using split [of a] split [of b] p by simp
  then show ?thesis
    by (simp add: a_def b_def hex32_inj)
qed

lemma distinct_map_cong:
  assumes "\<And>x y. f x = f y \<longleftrightarrow> g x = g y"
  shows "distinct (map f xs) = distinct (map g xs)"
proof (induction xs)
  case Nil
  show ?case by simp
next
  case (Cons x xs)
  have "f x \<in> f ` set xs \<longleftrightarrow> g x \<in> g ` set xs"
    using assms by (auto simp: image_iff)
  with Cons show ?case by simp
qed

text \<open>
  The content ids of a run of calls: the \<open>k\<close>-th call answers the text of the UUID made
  from the \<open>k\<close>-th read of the entropy source, whatever the hints are.
\<close>

lemma content_ids_calls:
  "content_ids (fst (recommend_calls hints w)) =
     map (\<lambda>k. Inr (PyStr (uuid_str (uuid4_int (urandom_src w (urandom_pos w + k))))))
       [0..<length hints]"
proof (induction hints arbitrary: w)
  case Nil
  show ?case by (simp add: content_ids_def)
next
  case (Cons h hs)
  from recommend_result [of h w] obtain r w'
    where r: "recommend h w = (Inr r, w')"
      and cid: "map_of r ''content_id'' = Some (PyStr (uuid_str (uuid4_int (urandom_src w (urandom_pos w)))))"
      and src: "urandom_src w' = urandom_src w" and pos: "urandom_pos w' = Suc (urandom_pos w)"
    by auto
  have "content_ids (fst (recommend_calls (h # hs) w)) =
          Inr (PyStr (uuid_str (uuid4_int (urandom_src w (urandom_pos w)))))
            # content_ids (fst (recommend_calls hs w'))"
    using r cid by (simp add: content_ids_def subscript_def split: prod.splits)
  also have "\<dots> =
      Inr (PyStr (uuid_str (uuid4_int (urandom_src w (urandom_pos w + 0)))))
        # map (\<lambda>k. Inr (PyStr (uuid_str (uuid4_int (urandom_src w (urandom_pos w + Suc k))))))
            [0..<length hs]"
    by (simp add: Cons.IH src pos)
  also have "\<dots> =
      map (\<lambda>k. Inr (PyStr (uuid_str (uuid4_int (urandom_src w (urandom_pos w + k))))))
        (0 # map Suc [0..<length hs])"
    by (simp add: comp_def)
  also have "0 # map Suc [0..<length hs] = [0..<length (h # hs)]"
    by (simp add: map_Suc_upt upt_conv_Cons del: upt_Suc)
  finally show ?case .
qed

lemma uuid4_int_demo:
  "uuid4_int 0x0123456789abcdef0123456789abcdef = 0x0123456789ab4def8123456789abcdef"
  by (simp add: uuid4_int_def)

lemma uuid_str_demo:
  "uuid_str 0x0123456789ab4def8123456789abcdef = ''01234567-89ab-4def-8123-456789abcdef''"
  by code_simp

text \<open>
  C4 as stated does not hold: \<^verbatim>\<open>recommend\<close> keeps no record of the ids it has issued,
  and when the entropy source returns the same bytes twice, two calls answer the same
  content id.
\<close>

theorem content_ids_collide:
  "content_ids (fst (recommend_calls [None, None] repeat_world)) =
     [Inr (PyStr ''01234567-89ab-4def-8123-456789abcdef''),
      Inr (PyStr ''01234567-89ab-4def-8123-456789abcdef'')]
   \<and> \<not> distinct (content_ids (fst (recommend_calls [None, None] repeat_world)))"
proof -
  have "[0..<length [None :: string option, None]] = [0, 1]"
    by (simp add: upt_rec)
  then have "content_ids (fst (recommend_calls [None, None] repeat_world)) =
     [Inr (PyStr ''01234567-89ab-4def-8123-456789abcdef''),
      Inr (PyStr ''01234567-89ab-4def-8123-456789abcdef'')]"
    by (simp only: content_ids_calls) (simp add: repeat_world_def uuid4_int_demo uuid_str_demo)
  then show ?thesis by simp
qed

text \<open>
  C4, amended. Over \<open>N\<close> calls in one process, \<open>N\<close> content ids are answered, and
  they are pairwise distinct exactly when the \<open>N\<close> reads of the entropy source are pairwise
  distinct on the 122 bits a version-4 UUID keeps, whatever the hints and the videos
  chosen.
\<close>

theorem content_ids_distinct_iff:
  "length (content_ids (fst (recommend_calls hints w))) = length hints
   \<and> (distinct (content_ids (fst (recommend_calls hints w))) \<longleftrightarrow>
        distinct (map (\<lambda>k. urandom_src w (urandom_pos w + k) AND uuid4_random_bits)
                   [0..<length hints]))"
proof -
  have "(Inr (PyStr (uuid_str (uuid4_int (urandom_src w (urandom_pos w + x))))) :: py_error + pyval)
          = Inr (PyStr (uuid_str (uuid4_int (urandom_src w (urandom_pos w + y)))))
      \<longleftrightarrow> urandom_src w (urandom_pos w + x) AND uuid4_random_bits
          = urandom_src w (urandom_pos w + y) AND uuid4_random_bits" for x y
    by (auto simp: uuid4_int_eq_iff [symmetric] dest: uuid_str_inj)
  then have "distinct (map (\<lambda>k. Inr (PyStr (uuid_str (uuid4_int (urandom_src w (urandom_pos w + k)))))
                              :: py_error + pyval) [0..<length hints])
      = distinct (map (\<lambda>k. urandom_src w (urandom_pos w + k) AND uuid4_random_bits)
                   [0..<length hints])"
    by (rule distinct_map_cong)
  then show ?thesis
    by (simp add: content_ids_calls)
qed

theorem content_ids_distinct_iff_witness:
  "distinct (map (\<lambda>k. urandom_src demo_world (urandom_pos demo_world + k) AND uuid4_random_bits)
              [0..<length [None, Some ''edge-eu-1'', None]])
   \<and> length (content_ids (fst (recommend_calls [None, Some ''edge-eu-1'', None] demo_world))) = 3
   \<and> distinct (content_ids (fst (recommend_calls [None, Some ''edge-eu-1'', None] demo_world)))"
proof -
  have "[0..<length [None, Some ''edge-eu-1'', None]] = [0, 1, 2]"
    by (simp add: upt_rec)
  then have "distinct (map (\<lambda>k. urandom_src demo_world (urandom_pos demo_world + k) AND uuid4_random_bits)
              [0..<length [None, Some ''edge-eu-1'', None]])"
    by (simp add: demo_world_def uuid4_random_bits_def)
  then show ?thesis
    using content_ids_distinct_iff [of "[None, Some ''edge-eu-1'', None]" demo_world]
    by simp
qed

end
